theory Spec2Isabelle
  imports Main "HOL-Library.Sublist"
begin

section \<open>The orchestration script \<open>main.py\<close>\<close>

subsection \<open>Country table\<close>

text \<open>
  The keys of \<open>COUNTRIES\<close>. The command line accepts no other value for
  \<open>--country\<close> (argparse \<open>choices\<close>), so the key is a datatype.
\<close>

datatype country_key = India | Usa

text \<open>
  One entry of \<open>COUNTRIES\<close>. The \<open>geo\<close> entry (three floating point numbers) is only
  printed and handed to the browser launcher; it is left out. The key \<open>locale\<close> is
  written \<open>locale_id\<close>.
\<close>

record country_info =
  name :: string
  tz :: string
  locale_id :: string
  linkedin_subdomain :: string
  session_dir :: string
  email_env :: string
  password_env :: string

fun COUNTRIES :: "country_key \<Rightarrow> country_info" where
  "COUNTRIES India =
     \<lparr>name = ''India'', tz = ''Asia/Kolkata'', locale_id = ''en-IN'',
      linkedin_subdomain = ''in'', session_dir = ''browser_session_india'',
      email_env = ''LINKEDIN_EMAIL'', password_env = ''LINKEDIN_PASSWORD''\<rparr>"
| "COUNTRIES Usa =
     \<lparr>name = ''United States'', tz = ''America/Los_Angeles'', locale_id = ''en-US'',
      linkedin_subdomain = ''www'', session_dir = ''browser_session_usa'',
      email_env = ''LINKEDIN_EMAIL_USA'', password_env = ''LINKEDIN_PASSWORD_USA''\<rparr>"

subsection \<open>Configuration\<close>

text \<open>
  The configuration dictionary, at the types of its defaults. A \<open>config.json\<close> gives
  any subset of the keys; a key it gives replaces the default
  (\<open>default_config.update(loaded)\<close>). A file whose values have other JSON types is
  outside this model.
\<close>

record config =
  search_keywords :: "string list"
  job_titles :: "string list"
  max_results :: int
  delay_between_requests_seconds :: int
  headless :: bool

record loaded_config =
  loaded_search_keywords :: "string list option"
  loaded_job_titles :: "string list option"
  loaded_max_results :: "int option"
  loaded_delay_between_requests_seconds :: "int option"
  loaded_headless :: "bool option"

definition default_config :: config where
  "default_config =
     \<lparr>search_keywords = [''hiring'', ''we are hiring'', ''looking for'', ''job opening''],
      job_titles = [''mobile developer'', ''app developer'', ''iOS developer'',
                    ''android developer''],
      max_results = 50,
      delay_between_requests_seconds = 2,
      headless = False\<rparr>"

definition update :: "config \<Rightarrow> loaded_config \<Rightarrow> config" where
  "update d l =
     \<lparr>search_keywords = (case loaded_search_keywords l of None \<Rightarrow> search_keywords d | Some v \<Rightarrow> v),
      job_titles = (case loaded_job_titles l of None \<Rightarrow> job_titles d | Some v \<Rightarrow> v),
      max_results = (case loaded_max_results l of None \<Rightarrow> max_results d | Some v \<Rightarrow> v),
      delay_between_requests_seconds =
        (case loaded_delay_between_requests_seconds l of
           None \<Rightarrow> delay_between_requests_seconds d | Some v \<Rightarrow> v),
      headless = (case loaded_headless l of None \<Rightarrow> headless d | Some v \<Rightarrow> v)\<rparr>"

text \<open>
  \<open>load_config\<close>: the argument is \<open>None\<close> when \<open>config.json\<close> does not exist and the
  content of the file otherwise.
\<close>

definition load_config :: "loaded_config option \<Rightarrow> config" where
  "load_config file = (case file of None \<Rightarrow> default_config | Some loaded \<Rightarrow> update default_config loaded)"

subsection \<open>Command line\<close>

text \<open>The flags as typed by the user: an omitted flag is \<open>None\<close> (\<open>False\<close> for the switch).\<close>

record cli =
  flag_search :: "string option"
  flag_max_results :: "int option"
  flag_country :: "country_key option"
  flag_headless :: bool

text \<open>The namespace \<open>parse_args\<close> returns, with the argparse defaults filled in.\<close>

record args =
  arg_search :: "string option"
  arg_max_results :: int
  arg_country :: country_key
  arg_headless :: bool

definition parse_args :: "cli \<Rightarrow> args" where
  "parse_args c =
     \<lparr>arg_search = flag_search c,
      arg_max_results = (case flag_max_results c of None \<Rightarrow> 50 | Some n \<Rightarrow> n),
      arg_country = (case flag_country c of None \<Rightarrow> India | Some k \<Rightarrow> k),
      arg_headless = flag_headless c\<rparr>"

text \<open>
  ``Override config with CLI args'': both tests are Python truth tests, so the
  integer \<open>0\<close> and the switch \<open>False\<close> leave the configuration as loaded.
\<close>

definition override_config :: "args \<Rightarrow> config \<Rightarrow> config" where
  "override_config a c =
     (let c1 = (if arg_max_results a \<noteq> 0 then c\<lparr>max_results := arg_max_results a\<rparr> else c)
      in if arg_headless a then c1\<lparr>headless := arg_headless a\<rparr> else c1)"

subsection \<open>Exceptions and the process exit status\<close>

text \<open>
  The exceptions that matter to \<open>main\<close>. \<open>KeyboardInterrupt\<close> and \<open>SystemExit\<close> derive
  from \<open>BaseException\<close> only; \<open>IndexError\<close> and every other exception a collaborator
  raises (named by its class) derive from \<open>Exception\<close>.
\<close>

datatype py_exc = KeyboardInterrupt | SystemExit int | IndexError | OtherException string

fun is_Exception :: "py_exc \<Rightarrow> bool" where
  "is_Exception KeyboardInterrupt = False"
| "is_Exception (SystemExit n) = False"
| "is_Exception IndexError = True"
| "is_Exception (OtherException c) = True"

datatype 'a outcome = Returns 'a | Raises py_exc

text \<open>
  The status of the process, from what leaves \<open>main\<close>: \<open>None\<close> when \<open>main\<close> returns.
  \<open>sys.exit(n)\<close> gives the low byte of \<open>n\<close>; an uncaught exception gives 1; an uncaught
  \<open>KeyboardInterrupt\<close> ends the interpreter through SIGINT, which a shell reports as 130.
\<close>

fun exit_status :: "py_exc option \<Rightarrow> nat" where
  "exit_status None = 0"
| "exit_status (Some (SystemExit n)) = nat (n mod 256)"
| "exit_status (Some KeyboardInterrupt) = 130"
| "exit_status (Some IndexError) = 1"
| "exit_status (Some (OtherException c)) = 1"

subsection \<open>Collaborators and observable events\<close>

text \<open>
  What \<open>main\<close> calls and does not define: the browser engine and the three functions of
  \<open>scraper.linkedin_scraper\<close>. Each is called at most once in a run, so each is given
  by its outcome on the arguments \<open>main\<close> passes.
\<close>

record collaborators =
  sync_playwright :: "unit outcome"
  mkdir :: "string \<Rightarrow> unit outcome"
  launch_persistent_context :: "string \<Rightarrow> bool \<Rightarrow> string \<Rightarrow> string \<Rightarrow> unit outcome"
  set_extra_http_headers :: "unit outcome"
  first_page :: "unit outcome"
  search_linkedin_posts ::
    "string \<Rightarrow> int \<Rightarrow> int \<Rightarrow> string \<Rightarrow> string \<Rightarrow> string \<Rightarrow> string list outcome"
  scrape_linkedin_posts :: "string list \<Rightarrow> int \<Rightarrow> bool \<Rightarrow> unit outcome"
  save_session :: "unit outcome"
  context_close :: "unit outcome"

datatype event =
    Print_header string int string string bool
  | Print_missing_credentials string string string
  | Print_using_credentials string
  | Start_playwright
  | Mkdir string
  | Print_context_settings string string string
  | Launch_persistent_context string bool string string
  | Set_extra_http_headers
  | First_page
  | Print_searching string string
  | Call_search_linkedin_posts string int int string string string
  | Print_no_urls
  | Call_scrape_linkedin_posts "string list" int bool
  | Call_save_session
  | Print_interrupted
  | Print_unexpected_error py_exc
  | Context_close
  | Stop_playwright

text \<open>The events that touch the browser: everything from entering \<open>sync_playwright()\<close> on.\<close>

fun browsing :: "event \<Rightarrow> bool" where
  "browsing (Print_header q n c s h) = False"
| "browsing (Print_missing_credentials c e p) = False"
| "browsing (Print_using_credentials e) = False"
| "browsing (Print_context_settings c t l) = False"
| "browsing (Print_searching b q) = False"
| "browsing Print_no_urls = False"
| "browsing Print_interrupted = False"
| "browsing (Print_unexpected_error e) = False"
| "browsing ev = True"

subsection \<open>\<open>main\<close>\<close>

text \<open>
  Lines 99 to 104: the query is \<open>--search\<close> when it is given and not empty, and the
  first job title and the first keyword of the configuration otherwise; \<open>[0]\<close> on an
  empty list raises \<open>IndexError\<close>.
\<close>

definition default_query :: "config \<Rightarrow> py_exc + string" where
  "default_query c =
     (case job_titles c of
        [] \<Rightarrow> Inl IndexError
      | job # _ \<Rightarrow>
         (case search_keywords c of
            [] \<Rightarrow> Inl IndexError
          | keyword # _ \<Rightarrow> Inr (job @ '' '' @ keyword)))"

definition search_query :: "args \<Rightarrow> config \<Rightarrow> py_exc + string" where
  "search_query a c =
     (case arg_search a of
        None \<Rightarrow> default_query c
      | Some q \<Rightarrow> if q = [] then default_query c else Inr q)"

text \<open>
  The environment after \<open>load_dotenv()\<close>, read by \<open>os.getenv\<close>. \<open>not email\<close> holds for
  an unset and for an empty variable.
\<close>

type_synonym environ = "string \<rightharpoonup> string"

definition falsy :: "string option \<Rightarrow> bool" where
  "falsy v = (case v of None \<Rightarrow> True | Some s \<Rightarrow> s = [])"

text \<open>Lines 167 to 175 and 183 to 188: the two calls into the scraper, with their arguments.\<close>

definition search_call ::
  "collaborators \<Rightarrow> string \<Rightarrow> config \<Rightarrow> country_info \<Rightarrow> string \<Rightarrow> string \<Rightarrow> string list outcome" where
  "search_call w q c ci email password =
     search_linkedin_posts w q (max_results c) (delay_between_requests_seconds c)
       (linkedin_subdomain ci) email password"

definition scrape_call :: "collaborators \<Rightarrow> string list \<Rightarrow> config \<Rightarrow> unit outcome" where
  "scrape_call w post_urls c =
     scrape_linkedin_posts w post_urls (delay_between_requests_seconds c) True"

text \<open>
  Lines 162 to 191, the body of \<open>try\<close>: the events so far and the exception that leaves
  the body, if any.
\<close>

definition try_body ::
  "collaborators \<Rightarrow> string \<Rightarrow> config \<Rightarrow> country_info \<Rightarrow> string \<Rightarrow> string
     \<Rightarrow> event list \<times> py_exc option" where
  "try_body w q c ci email password =
     (let ev1 = [Print_searching (linkedin_subdomain ci) q,
                 Call_search_linkedin_posts q (max_results c) (delay_between_requests_seconds c)
                   (linkedin_subdomain ci) email password]
      in case search_call w q c ci email password of
           Raises e \<Rightarrow> (ev1, Some e)
         | Returns post_urls \<Rightarrow>
             if post_urls = [] then (ev1 @ [Print_no_urls], Some (SystemExit 1))
             else
               (let ev2 = ev1 @ [Call_scrape_linkedin_posts post_urls
                                   (delay_between_requests_seconds c) True]
                in case scrape_call w post_urls c of
                     Raises e \<Rightarrow> (ev2, Some e)
                   | Returns _ \<Rightarrow>
                       (case save_session w of
                          Raises e \<Rightarrow> (ev2 @ [Call_save_session], Some e)
                        | Returns _ \<Rightarrow> (ev2 @ [Call_save_session], None))))"

text \<open>
  Lines 193 to 198, the handlers: \<open>KeyboardInterrupt\<close> and every \<open>Exception\<close> are
  reported and swallowed; anything else (\<open>SystemExit\<close>) goes on.
\<close>

definition handlers :: "event list \<times> py_exc option \<Rightarrow> event list \<times> py_exc option" where
  "handlers r =
     (case snd r of
        None \<Rightarrow> r
      | Some e \<Rightarrow>
          if e = KeyboardInterrupt then (fst r @ [Print_interrupted], None)
          else if is_Exception e then (fst r @ [Print_unexpected_error e], None)
          else r)"

text \<open>
  Lines 199 to 204, \<open>finally\<close>: \<open>context.close()\<close> is called, and whatever it raises is
  dropped by the bare \<open>except\<close>.
\<close>

definition finally_clause :: "collaborators \<Rightarrow> event list \<times> py_exc option \<Rightarrow> event list \<times> py_exc option" where
  "finally_clause w r = (case context_close w of Raises _ \<Rightarrow> (fst r @ [Context_close], snd r)
                                       | Returns _ \<Rightarrow> (fst r @ [Context_close], snd r))"

text \<open>
  Lines 128 to 204, the \<open>with\<close> block. An exception of a call before \<open>try\<close> leaves the
  block uncaught; leaving the block stops Playwright.
\<close>

definition with_block ::
  "collaborators \<Rightarrow> string \<Rightarrow> config \<Rightarrow> country_info \<Rightarrow> string \<Rightarrow> string
     \<Rightarrow> event list \<times> py_exc option" where
  "with_block w q c ci email password =
     (case sync_playwright w of
        Raises e \<Rightarrow> ([Start_playwright], Some e)
      | Returns _ \<Rightarrow>
          (let ev1 = [Start_playwright, Mkdir (session_dir ci)]
           in case mkdir w (session_dir ci) of
                Raises e \<Rightarrow> (ev1 @ [Stop_playwright], Some e)
              | Returns _ \<Rightarrow>
                  (let ev2 = ev1 @ [Print_context_settings (name ci) (tz ci) (locale_id ci),
                                    Launch_persistent_context (session_dir ci) (headless c)
                                      (tz ci) (locale_id ci)]
                   in case launch_persistent_context w (session_dir ci) (headless c)
                             (tz ci) (locale_id ci) of
                        Raises e \<Rightarrow> (ev2 @ [Stop_playwright], Some e)
                      | Returns _ \<Rightarrow>
                          (case set_extra_http_headers w of
                             Raises e \<Rightarrow> (ev2 @ [Set_extra_http_headers, Stop_playwright], Some e)
                           | Returns _ \<Rightarrow>
                               (let ev3 = ev2 @ [Set_extra_http_headers, First_page]
                                in case first_page w of
                                     Raises e \<Rightarrow> (ev3 @ [Stop_playwright], Some e)
                                   | Returns _ \<Rightarrow>
                                       (let r = finally_clause w (handlers (try_body w q c ci email password))
                                        in (ev3 @ fst r @ [Stop_playwright], snd r)))))))"

text \<open>
  \<open>main\<close>: the events of the run in order, and the exception that leaves \<open>main\<close>
  (\<open>None\<close> when it returns).
\<close>

definition main ::
  "cli \<Rightarrow> loaded_config option \<Rightarrow> environ \<Rightarrow> collaborators \<Rightarrow> event list \<times> py_exc option" where
  "main c file env w =
     (let a = parse_args c;
          cfg = override_config a (load_config file);
          ci = COUNTRIES (arg_country a)
      in case search_query a cfg of
           Inl e \<Rightarrow> ([], Some e)
         | Inr q \<Rightarrow>
             (let ev0 = [Print_header q (max_results cfg) (name ci) (session_dir ci) (headless cfg)];
                  email = env (email_env ci);
                  password = env (password_env ci)
              in if falsy email \<or> falsy password
                 then (ev0 @ [Print_missing_credentials (name ci) (email_env ci) (password_env ci)],
                       Some (SystemExit 1))
                 else
                   (let r = with_block w q cfg ci (the email) (the password)
                    in (ev0 @ [Print_using_credentials (the email)] @ fst r, snd r))))"

subsection \<open>Runs that reach the \<open>try\<close> block\<close>

text \<open>
  The configuration of a run (lines 86 to 93) and its country profile (lines 95 and 96),
  as functions of the inputs.
\<close>

definition run_config :: "cli \<Rightarrow> loaded_config option \<Rightarrow> config" where
  "run_config c file = override_config (parse_args c) (load_config file)"

definition run_country :: "cli \<Rightarrow> country_info" where
  "run_country c = COUNTRIES (arg_country (parse_args c))"

text \<open>
  Browsing has begun once every call between \<open>with\<close> and \<open>try\<close> has returned:
  Playwright started, the session directory made, the persistent context launched, the
  headers set and the page obtained.
\<close>

definition setup_returns :: "collaborators \<Rightarrow> config \<Rightarrow> country_info \<Rightarrow> bool" where
  "setup_returns w c ci =
     (sync_playwright w = Returns () \<and>
      mkdir w (session_dir ci) = Returns () \<and>
      launch_persistent_context w (session_dir ci) (headless c) (tz ci) (locale_id ci) = Returns () \<and>
      set_extra_http_headers w = Returns () \<and>
      first_page w = Returns ())"

text \<open>
  A run reaches the \<open>try\<close> block with query \<open>q\<close> and the credentials \<open>email\<close> and
  \<open>password\<close>.
\<close>

definition reaches_try ::
  "cli \<Rightarrow> loaded_config option \<Rightarrow> environ \<Rightarrow> collaborators \<Rightarrow> string \<Rightarrow> string \<Rightarrow> string \<Rightarrow> bool" where
  "reaches_try c file env w q email password =
     (search_query (parse_args c) (run_config c file) = Inr q \<and>
      env (email_env (run_country c)) = Some email \<and> email \<noteq> [] \<and>
      env (password_env (run_country c)) = Some password \<and> password \<noteq> [] \<and>
      setup_returns w (run_config c file) (run_country c))"

text \<open>The events of such a run before the \<open>try\<close> block.\<close>

definition setup_events :: "string \<Rightarrow> config \<Rightarrow> country_info \<Rightarrow> string \<Rightarrow> event list" where
  "setup_events q c ci email =
     [Print_header q (max_results c) (name ci) (session_dir ci) (headless c),
      Print_using_credentials email,
      Start_playwright,
      Mkdir (session_dir ci),
      Print_context_settings (name ci) (tz ci) (locale_id ci),
      Launch_persistent_context (session_dir ci) (headless c) (tz ci) (locale_id ci),
      Set_extra_http_headers,
      First_page]"

section \<open>The Search Collector\<close>

text \<open>
  Modelled from the spec: \<open>search_linkedin_posts\<close> lives in
  \<open>scraper/linkedin_scraper.py\<close>, which is not among the sources; the definitions of
  this section follow section 4.2 of the specification. The search surface of a query
  is the list of post links rendered after each number of scrolls.
\<close>

type_synonym surface = "string \<Rightarrow> nat \<Rightarrow> string list"

text \<open>
  Modelled from the spec: step (c), ``append any not already present'': the URLs of a
  pass that are new, in the order found, each once.
\<close>

fun fresh :: "string list \<Rightarrow> string list \<Rightarrow> string list" where
  "fresh seen [] = []"
| "fresh seen (u # us) = (if u \<in> set seen then fresh seen us else u # fresh (seen @ [u]) us)"

text \<open>
  Modelled from the spec: the extraction passes. Pass \<open>k\<close> reads the links rendered
  after \<open>k\<close> scrolls, canonicalizes them and appends the new ones. The loop ends when
  \<open>max_results\<close> is reached, when a pass after a scroll finds nothing new, or when
  more than \<open>max_empty\<close> consecutive passes found nothing new; otherwise it scrolls.
  The canonicalization and the bound of the stagnation guard are not fixed by the
  specification and are parameters. The result is the Candidate URL Set, capped, and
  the number of new URLs of every pass made.
\<close>

function collect_loop ::
  "(string \<Rightarrow> string) \<Rightarrow> (nat \<Rightarrow> string list) \<Rightarrow> nat \<Rightarrow> nat \<Rightarrow> nat \<Rightarrow> nat
     \<Rightarrow> string list \<Rightarrow> nat list \<Rightarrow> string list \<times> nat list" where
  "collect_loop canonicalize rendered max_res max_empty k empties acc ns =
     (let new = fresh acc (map canonicalize (rendered k));
          acc' = acc @ new;
          empties' = (if new = [] then Suc empties else 0);
          ns' = ns @ [length new]
      in if max_res \<le> length acc' then (take max_res acc', ns')
         else if new = [] \<and> 0 < k then (acc', ns')
         else if max_empty < empties' then (acc', ns')
         else collect_loop canonicalize rendered max_res max_empty (Suc k) empties' acc' ns')"
  by pat_completeness auto
termination
  by (relation "measure (\<lambda>(c, r, m, b, k, e, acc, ns). 2 * (m - length acc) + (if k = 0 then 1 else 0))")
     (auto simp add: neq_Nil_conv)

text \<open>
  Modelled from the spec: the contract \<open>collect(page, query, max_results, delay)\<close>.
  The delay only spaces the scrolls in time and has no part in the result.
\<close>

definition collect ::
  "(string \<Rightarrow> string) \<Rightarrow> nat \<Rightarrow> surface \<Rightarrow> string \<Rightarrow> nat \<Rightarrow> nat \<Rightarrow> string list" where
  "collect canonicalize max_empty page query max_res delay =
     fst (collect_loop canonicalize (page query) max_res max_empty 0 0 [] [])"

text \<open>
  Modelled from the spec: the log of the same run, the number of new URLs that each
  pass discovered.
\<close>

definition collect_passes ::
  "(string \<Rightarrow> string) \<Rightarrow> nat \<Rightarrow> surface \<Rightarrow> string \<Rightarrow> nat \<Rightarrow> nat \<Rightarrow> nat list" where
  "collect_passes canonicalize max_empty page query max_res delay =
     snd (collect_loop canonicalize (page query) max_res max_empty 0 0 [] [])"

text \<open>
  Modelled from the spec: the discovery sequence, every canonical URL of the first
  \<open>n\<close> passes in the order rendered.
\<close>

definition discovered :: "(string \<Rightarrow> string) \<Rightarrow> (nat \<Rightarrow> string list) \<Rightarrow> nat \<Rightarrow> string list" where
  "discovered canonicalize rendered n = concat (map (\<lambda>k. map canonicalize (rendered k)) [0..<n])"

section \<open>The Hiring Classifier\<close>

text \<open>
  Modelled from the spec: \<open>classify\<close> belongs to \<open>scraper/linkedin_scraper.py\<close>, which
  is not among the sources; the definitions of this section follow sections 3 and 4.4
  of the specification. A Post Record carries the tag \<open>Unavailable\<close> when the post
  could not be loaded.
\<close>

record post_record =
  author_name :: string
  author_title :: string
  post_text :: string
  timestamp :: string
  engagement :: "nat option"
  source_url :: string
  unavailable :: bool

text \<open>
  Modelled from the spec: the Classification Result of section 3, the record with its
  hiring tag and the matched phrases.
\<close>

record classification_result =
  classified :: post_record
  hiring :: bool
  matched :: "string list"

text \<open>
  Modelled from the spec: the configured phrase sets. The specification names a
  hiring-intent cue and does not say what the cues are; they are a third set.
\<close>

record matcher =
  keyword_set :: "string list"
  job_title_set :: "string list"
  intent_cues :: "string list"

text \<open>Modelled from the spec: normalization, case folding of the ASCII letters.\<close>

definition case_fold :: "string \<Rightarrow> string" where
  "case_fold s =
     map (\<lambda>c. if 65 \<le> (of_char c :: nat) \<and> (of_char c :: nat) \<le> 90
               then char_of ((of_char c :: nat) + 32) else c) s"

text \<open>Modelled from the spec: the phrases of a set that the text contains as substrings.\<close>

definition matches :: "string list \<Rightarrow> string \<Rightarrow> string list" where
  "matches phrases text = filter (\<lambda>p. sublist (case_fold p) (case_fold text)) phrases"

text \<open>
  Modelled from the spec: a record is hiring when its text contains a keyword phrase,
  or a job-title phrase together with an intent cue; an \<open>Unavailable\<close> record is
  not hiring.
\<close>

definition classify :: "matcher \<Rightarrow> post_record \<Rightarrow> classification_result" where
  "classify m r =
     (if unavailable r then \<lparr>classified = r, hiring = False, matched = []\<rparr>
      else
        (let kws = matches (keyword_set m) (post_text r);
             titles = (if matches (intent_cues m) (post_text r) = [] then []
                       else matches (job_title_set m) (post_text r))
         in \<lparr>classified = r, hiring = (kws \<noteq> [] \<or> titles \<noteq> []), matched = kws @ titles\<rparr>))"

section \<open>Concrete inputs\<close>

definition cli_plain :: cli where
  "cli_plain = \<lparr>flag_search = None, flag_max_results = None, flag_country = None,
                 flag_headless = False\<rparr>"

definition file_without_titles :: loaded_config where
  "file_without_titles =
     \<lparr>loaded_search_keywords = None, loaded_job_titles = Some [], loaded_max_results = None,
      loaded_delay_between_requests_seconds = None, loaded_headless = None\<rparr>"

definition file_max_7 :: loaded_config where
  "file_max_7 =
     \<lparr>loaded_search_keywords = None, loaded_job_titles = None, loaded_max_results = Some 7,
      loaded_delay_between_requests_seconds = None, loaded_headless = None\<rparr>"

definition env_india :: environ where
  "env_india = [''LINKEDIN_EMAIL'' \<mapsto> ''a@b.c'', ''LINKEDIN_PASSWORD'' \<mapsto> ''pw'']"

definition env_no_password :: environ where
  "env_no_password = [''LINKEDIN_EMAIL'' \<mapsto> ''a@b.c'', ''LINKEDIN_PASSWORD'' \<mapsto> []]"

definition cli_usa :: cli where
  "cli_usa = \<lparr>flag_search = Some ''backend developer'', flag_max_results = Some 10,
               flag_country = Some Usa, flag_headless = True\<rparr>"

definition env_usa :: environ where
  "env_usa = [''LINKEDIN_EMAIL_USA'' \<mapsto> ''u@s.a'', ''LINKEDIN_PASSWORD_USA'' \<mapsto> ''secret'']"

definition all_return :: collaborators where
  "all_return =
     \<lparr>sync_playwright = Returns (),
      mkdir = (\<lambda>_. Returns ()),
      launch_persistent_context = (\<lambda>_ _ _ _. Returns ()),
      set_extra_http_headers = Returns (),
      first_page = Returns (),
      search_linkedin_posts = (\<lambda>_ _ _ _ _ _. Returns [''https://in.linkedin.com/posts/1'']),
      scrape_linkedin_posts = (\<lambda>_ _ _. Returns ()),
      save_session = Returns (),
      context_close = Returns ()\<rparr>"

definition interrupted_scrape :: collaborators where
  "interrupted_scrape = all_return\<lparr>scrape_linkedin_posts := (\<lambda>_ _ _. Raises KeyboardInterrupt)\<rparr>"

definition failing_search :: collaborators where
  "failing_search =
     all_return\<lparr>search_linkedin_posts := (\<lambda>_ _ _ _ _ _. Raises (OtherException ''AuthFailed''))\<rparr>"

definition empty_search :: collaborators where
  "empty_search = all_return\<lparr>search_linkedin_posts := (\<lambda>_ _ _ _ _ _. Returns [])\<rparr>"

text \<open>A canonicalization that cuts a link at its query string.\<close>

definition strip_tracking :: "string \<Rightarrow> string" where
  "strip_tracking u = takeWhile (\<lambda>c. c \<noteq> CHR ''?'') u"

text \<open>
  A search surface with three posts: two links are rendered at once (one of them
  twice), a scroll brings a third, and further scrolls bring nothing.
\<close>

definition three_posts :: surface where
  "three_posts query k =
     (if k = 0 then [''/posts/a?trk=x'', ''/posts/b'', ''/posts/a'']
      else if k = 1 then [''/posts/b?trk=y'', ''/posts/c'']
      else [])"

text \<open>A search surface that never renders a post link.\<close>

definition dead_end :: surface where
  "dead_end query k = []"

definition hiring_matcher :: matcher where
  "hiring_matcher =
     \<lparr>keyword_set = [''hiring'', ''we are hiring'', ''looking for'', ''job opening''],
      job_title_set = [''mobile developer'', ''app developer'', ''iOS developer'',
                       ''android developer''],
      intent_cues = [''apply'']\<rparr>"

text \<open>A post that could not be loaded, although its text holds a keyword.\<close>

definition removed_post :: post_record where
  "removed_post =
     \<lparr>author_name = [], author_title = [], post_text = ''We are hiring'', timestamp = [],
      engagement = None, source_url = ''/posts/a'', unavailable = True\<rparr>"

section \<open>Properties of \<open>main\<close>\<close>

subsection \<open>Auxiliary facts\<close>

lemma main_reaches_try:
  assumes "reaches_try c file env w q email password"
  shows "main c file env w =
     (let r = finally_clause w (handlers (try_body w q (run_config c file) (run_country c) email password))
      in (setup_events q (run_config c file) (run_country c) email @ fst r @ [Stop_playwright], snd r))"
  using assms
  by (simp add: reaches_try_def run_config_def run_country_def main_def Let_def falsy_def
      with_block_def setup_returns_def setup_events_def)

lemma finally_clause_eq: "finally_clause w r = (fst r @ [Context_close], snd r)"
  by (simp add: finally_clause_def split: outcome.splits)

lemma handlers_KeyboardInterrupt:
  "handlers (evs, Some KeyboardInterrupt) = (evs @ [Print_interrupted], None)"
  by (simp add: handlers_def)

lemma handlers_Exception:
  "is_Exception e \<Longrightarrow> handlers (evs, Some e) = (evs @ [Print_unexpected_error e], None)"
  by (cases e) (simp_all add: handlers_def)

lemma handlers_SystemExit: "handlers (evs, Some (SystemExit n)) = (evs, Some (SystemExit n))"
  by (simp add: handlers_def)

lemma handlers_keeps_events: "set (fst r) \<subseteq> set (fst (handlers r))"
  by (cases r) (auto simp add: handlers_def split: option.splits)

lemma try_body_search_raises:
  "search_call w q c ci email password = Raises e \<Longrightarrow>
   try_body w q c ci email password =
     ([Print_searching (linkedin_subdomain ci) q,
       Call_search_linkedin_posts q (max_results c) (delay_between_requests_seconds c)
         (linkedin_subdomain ci) email password], Some e)"
  by (simp add: try_body_def)

lemma try_body_search_empty:
  "search_call w q c ci email password = Returns [] \<Longrightarrow>
   try_body w q c ci email password =
     ([Print_searching (linkedin_subdomain ci) q,
       Call_search_linkedin_posts q (max_results c) (delay_between_requests_seconds c)
         (linkedin_subdomain ci) email password,
       Print_no_urls], Some (SystemExit 1))"
  by (simp add: try_body_def)

lemma try_body_scrape_raises:
  "search_call w q c ci email password = Returns urls \<Longrightarrow> urls \<noteq> [] \<Longrightarrow>
   scrape_call w urls c = Raises e \<Longrightarrow>
   try_body w q c ci email password =
     ([Print_searching (linkedin_subdomain ci) q,
       Call_search_linkedin_posts q (max_results c) (delay_between_requests_seconds c)
         (linkedin_subdomain ci) email password,
       Call_scrape_linkedin_posts urls (delay_between_requests_seconds c) True], Some e)"
  by (simp add: try_body_def)

lemma try_body_save_raises:
  "search_call w q c ci email password = Returns urls \<Longrightarrow> urls \<noteq> [] \<Longrightarrow>
   scrape_call w urls c = Returns u \<Longrightarrow> save_session w = Raises e \<Longrightarrow>
   try_body w q c ci email password =
     ([Print_searching (linkedin_subdomain ci) q,
       Call_search_linkedin_posts q (max_results c) (delay_between_requests_seconds c)
         (linkedin_subdomain ci) email password,
       Call_scrape_linkedin_posts urls (delay_between_requests_seconds c) True,
       Call_save_session], Some e)"
  by (simp add: try_body_def)

lemma try_body_calls_search:
  "Call_search_linkedin_posts q (max_results c) (delay_between_requests_seconds c)
     (linkedin_subdomain ci) email password \<in> set (fst (try_body w q c ci email password))"
  by (simp add: try_body_def Let_def split: outcome.splits)

lemma save_session_not_in_setup: "Call_save_session \<notin> set (setup_events q c ci email)"
  by (simp add: setup_events_def)

lemma reaches_try_plain:
  "reaches_try cli_plain None env_india all_return ''mobile developer hiring'' ''a@b.c'' ''pw''"
  by (simp add: reaches_try_def search_query_def default_query_def parse_args_def cli_plain_def
      run_config_def override_config_def load_config_def default_config_def run_country_def
      env_india_def setup_returns_def all_return_def)

lemma run_config_plain: "run_config cli_plain None = default_config"
  by (simp add: run_config_def override_config_def parse_args_def cli_plain_def load_config_def
      default_config_def)

lemma run_country_plain: "run_country cli_plain = COUNTRIES India"
  by (simp add: run_country_def parse_args_def cli_plain_def)

lemma reaches_try_collaborators:
  "reaches_try c file env all_return q email password \<Longrightarrow>
   reaches_try c file env (all_return\<lparr>search_linkedin_posts := s\<rparr>) q email password \<and>
   reaches_try c file env (all_return\<lparr>scrape_linkedin_posts := t\<rparr>) q email password"
  by (simp add: reaches_try_def setup_returns_def)

text \<open>
  Claim C9. When \<open>--max-results\<close> is omitted the run uses 50, the argparse default,
  whatever \<open>config.json\<close> gives; an explicit \<open>--max-results 0\<close> is dropped by the truth
  test and the value of the configuration is used; every other explicit value, negative
  ones too, is taken as it is; and the value of the run goes to \<open>search_linkedin_posts\<close>
  unchecked, so the bound \<open>max_results \<ge> 1\<close> is never validated.
\<close>

theorem max_results_flag:
  "(flag_max_results c = None \<longrightarrow> max_results (run_config c file) = 50) \<and>
   (flag_max_results c = Some 0 \<longrightarrow> max_results (run_config c file) = max_results (load_config file)) \<and>
   (\<forall>n. flag_max_results c = Some n \<and> n \<noteq> 0 \<longrightarrow> max_results (run_config c file) = n) \<and>
   (reaches_try c file env w q email password \<longrightarrow>
      Call_search_linkedin_posts q (max_results (run_config c file))
        (delay_between_requests_seconds (run_config c file))
        (linkedin_subdomain (run_country c)) email password \<in> set (fst (main c file env w)))"
proof (intro conjI impI allI)
  assume "flag_max_results c = None"
  then show "max_results (run_config c file) = 50"
    by (simp add: run_config_def override_config_def parse_args_def Let_def)
next
  assume "flag_max_results c = Some 0"
  then show "max_results (run_config c file) = max_results (load_config file)"
    by (simp add: run_config_def override_config_def parse_args_def Let_def)
next
  fix n
  assume "flag_max_results c = Some n \<and> n \<noteq> 0"
  then show "max_results (run_config c file) = n"
    by (simp add: run_config_def override_config_def parse_args_def Let_def)
next
  assume r: "reaches_try c file env w q email password"
  let ?call = "Call_search_linkedin_posts q (max_results (run_config c file))
        (delay_between_requests_seconds (run_config c file))
        (linkedin_subdomain (run_country c)) email password"
  let ?body = "try_body w q (run_config c file) (run_country c) email password"
  have "?call \<in> set (fst ?body)"
    by (rule try_body_calls_search)
  then have "?call \<in> set (fst (handlers ?body))"
    using handlers_keeps_events [of ?body] by blast
  then show "?call \<in> set (fst (main c file env w))"
    by (simp add: main_reaches_try [OF r] Let_def finally_clause_eq)
qed


lemma reaches_try_usa:
  "reaches_try cli_usa None env_usa all_return ''backend developer'' ''u@s.a'' ''secret''"
  by (simp add: reaches_try_def search_query_def parse_args_def cli_usa_def
      run_config_def override_config_def load_config_def default_config_def run_country_def
      env_usa_def setup_returns_def all_return_def)

theorem max_results_flag_witness:
  "max_results (run_config cli_plain (Some file_max_7)) = 50 \<and>
   max_results (run_config (cli_plain\<lparr>flag_max_results := Some 0\<rparr>) (Some file_max_7)) = 7 \<and>
   max_results (run_config (cli_plain\<lparr>flag_max_results := Some (- 5)\<rparr>) None) = - 5 \<and>
   Call_search_linkedin_posts ''mobile developer hiring'' (- 5) 2 ''in'' ''a@b.c'' ''pw''
     \<in> set (fst (main (cli_plain\<lparr>flag_max_results := Some (- 5)\<rparr>) None env_india all_return))"
proof -
  let ?neg = "cli_plain\<lparr>flag_max_results := Some (- 5)\<rparr>"
  have r: "reaches_try ?neg None env_india all_return ''mobile developer hiring'' ''a@b.c'' ''pw''"
    by (simp add: reaches_try_def search_query_def default_query_def parse_args_def cli_plain_def
        run_config_def override_config_def load_config_def default_config_def run_country_def
        env_india_def setup_returns_def all_return_def)
  have l: "max_results (load_config (Some file_max_7)) = 7"
    by (simp add: load_config_def update_def file_max_7_def default_config_def)
  have d: "delay_between_requests_seconds (run_config ?neg None) = 2"
    by (simp add: run_config_def override_config_def parse_args_def cli_plain_def load_config_def
        default_config_def)
  have i: "linkedin_subdomain (run_country ?neg) = ''in''"
    by (simp add: run_country_def parse_args_def cli_plain_def)
  have f1: "flag_max_results cli_plain = None"
    by (simp add: cli_plain_def)
  have f2: "flag_max_results (cli_plain\<lparr>flag_max_results := Some 0\<rparr>) = Some 0"
    by simp
  have f3: "flag_max_results ?neg = Some (- 5) \<and> (- 5 :: int) \<noteq> 0"
    by simp
  note a = max_results_flag [of cli_plain "Some file_max_7"]
  note b = max_results_flag [of "cli_plain\<lparr>flag_max_results := Some 0\<rparr>" "Some file_max_7"]
  note c = max_results_flag [of ?neg None env_india all_return
      "''mobile developer hiring''" "''a@b.c''" "''pw''"]
  have 1: "max_results (run_config cli_plain (Some file_max_7)) = 50"
    by (rule a [THEN conjunct1, rule_format, OF f1])
  have 2: "max_results (run_config (cli_plain\<lparr>flag_max_results := Some 0\<rparr>) (Some file_max_7)) = 7"
    by (simp only: b [THEN conjunct2, THEN conjunct1, rule_format, OF f2] l)
  have 3: "max_results (run_config ?neg None) = - 5"
    by (rule c [THEN conjunct2, THEN conjunct2, THEN conjunct1, rule_format, OF f3])
  have 4: "Call_search_linkedin_posts ''mobile developer hiring'' (max_results (run_config ?neg None))
             (delay_between_requests_seconds (run_config ?neg None))
             (linkedin_subdomain (run_country ?neg)) ''a@b.c'' ''pw''
           \<in> set (fst (main ?neg None env_india all_return))"
    by (rule c [THEN conjunct2, THEN conjunct2, THEN conjunct2, rule_format, OF r])
  from 4 have 5: "Call_search_linkedin_posts ''mobile developer hiring'' (- 5) 2 ''in'' ''a@b.c'' ''pw''
           \<in> set (fst (main ?neg None env_india all_return))"
    by (simp only: 3 d i)
  show ?thesis
    using 1 2 3 5 by simp
qed

text \<open>
  Claim C10. When \<open>--search\<close> is not given and the loaded configuration has an empty
  \<open>job_titles\<close> or an empty \<open>search_keywords\<close> list, \<open>main\<close> raises \<open>IndexError\<close>, which
  nothing catches (exit status 1). No event precedes it and the result does not depend
  on the environment or on the collaborators: nothing is printed, the credentials are
  not checked and no browsing begins.
\<close>

theorem empty_lists_raise_IndexError:
  assumes "flag_search c = None"
    and "job_titles (load_config file) = [] \<or> search_keywords (load_config file) = []"
  shows "main c file env w = ([], Some IndexError) \<and> exit_status (snd (main c file env w)) = 1"
proof -
  have "default_query (override_config (parse_args c) (load_config file)) = Inl IndexError"
    using assms(2)
    by (auto simp add: default_query_def override_config_def Let_def split: list.splits)
  then show ?thesis
    using assms(1) by (simp add: main_def Let_def search_query_def parse_args_def)
qed

theorem empty_lists_raise_IndexError_witness:
  "flag_search cli_plain = None \<and> job_titles (load_config (Some file_without_titles)) = [] \<and>
   main cli_plain (Some file_without_titles) env_india all_return = ([], Some IndexError)"
proof -
  have f: "flag_search cli_plain = None"
    by (simp add: cli_plain_def)
  have j: "job_titles (load_config (Some file_without_titles)) = []"
    by (simp add: load_config_def update_def file_without_titles_def)
  from empty_lists_raise_IndexError [OF f disjI1 [OF j], of env_india all_return] f j
  show ?thesis by simp
qed

text \<open>
  Claim C3. When the email or the password variable of the selected country profile is
  unset or empty, the process ends with a non-zero status and no event of the run
  touches the browser: nothing is launched, no page is opened, nothing is navigated.
  Where the query could be built, the run prints the header and the missing
  credentials and leaves through \<open>sys.exit(1)\<close>.
\<close>

theorem missing_credentials_exit_before_browsing:
  assumes "falsy (env (email_env (run_country c))) \<or> falsy (env (password_env (run_country c)))"
  shows "exit_status (snd (main c file env w)) \<noteq> 0 \<and>
         (\<forall>ev \<in> set (fst (main c file env w)). \<not> browsing ev) \<and>
         (\<forall>q. search_query (parse_args c) (run_config c file) = Inr q \<longrightarrow>
            main c file env w =
              ([Print_header q (max_results (run_config c file)) (name (run_country c))
                  (session_dir (run_country c)) (headless (run_config c file)),
                Print_missing_credentials (name (run_country c)) (email_env (run_country c))
                  (password_env (run_country c))],
               Some (SystemExit 1)))"
proof (cases "search_query (parse_args c) (run_config c file)")
  case (Inl e)
  then have "e = IndexError"
    by (auto simp add: search_query_def default_query_def split: option.splits list.splits if_splits)
  with Inl have "main c file env w = ([], Some IndexError)"
    by (simp add: main_def Let_def run_config_def)
  with Inl show ?thesis by simp
next
  case (Inr q)
  with assms have "main c file env w =
              ([Print_header q (max_results (run_config c file)) (name (run_country c))
                  (session_dir (run_country c)) (headless (run_config c file)),
                Print_missing_credentials (name (run_country c)) (email_env (run_country c))
                  (password_env (run_country c))],
               Some (SystemExit 1))"
    by (auto simp add: main_def Let_def run_config_def run_country_def)
  with Inr show ?thesis by simp
qed

theorem missing_credentials_exit_before_browsing_witness:
  "falsy (env_no_password (password_env (run_country cli_plain))) \<and>
   main cli_plain None env_no_password all_return =
     ([Print_header ''mobile developer hiring'' 50 ''India'' ''browser_session_india'' False,
       Print_missing_credentials ''India'' ''LINKEDIN_EMAIL'' ''LINKEDIN_PASSWORD''],
      Some (SystemExit 1)) \<and>
   exit_status (snd (main cli_plain None env_no_password all_return)) \<noteq> 0"
proof -
  have h: "falsy (env_no_password (password_env (run_country cli_plain)))"
    by (simp add: falsy_def env_no_password_def run_country_plain)
  have q: "search_query (parse_args cli_plain) (run_config cli_plain None) = Inr ''mobile developer hiring''"
    using reaches_try_plain by (simp add: reaches_try_def)
  have h': "falsy (env_no_password (email_env (run_country cli_plain))) \<or>
            falsy (env_no_password (password_env (run_country cli_plain)))"
    using h by (rule disjI2)
  note t = missing_credentials_exit_before_browsing [of env_no_password cli_plain None all_return, OF h']
  have 1: "exit_status (snd (main cli_plain None env_no_password all_return)) \<noteq> 0"
    by (rule t [THEN conjunct1])
  have "main cli_plain None env_no_password all_return =
     ([Print_header ''mobile developer hiring'' (max_results (run_config cli_plain None))
         (name (run_country cli_plain)) (session_dir (run_country cli_plain))
         (headless (run_config cli_plain None)),
       Print_missing_credentials (name (run_country cli_plain)) (email_env (run_country cli_plain))
         (password_env (run_country cli_plain))],
      Some (SystemExit 1))"
    by (rule t [THEN conjunct2, THEN conjunct2, rule_format, OF q])
  then have 2: "main cli_plain None env_no_password all_return =
     ([Print_header ''mobile developer hiring'' 50 ''India'' ''browser_session_india'' False,
       Print_missing_credentials ''India'' ''LINKEDIN_EMAIL'' ''LINKEDIN_PASSWORD''],
      Some (SystemExit 1))"
    by (simp add: run_config_plain run_country_plain default_config_def)
  show ?thesis
    using h 1 2 by (intro conjI)
qed

lemma reaches_try_interrupted_scrape:
  "reaches_try cli_plain None env_india interrupted_scrape ''mobile developer hiring'' ''a@b.c'' ''pw''"
  unfolding interrupted_scrape_def
  by (rule reaches_try_collaborators [OF reaches_try_plain, THEN conjunct2])

lemma reaches_try_failing_search:
  "reaches_try cli_plain None env_india failing_search ''mobile developer hiring'' ''a@b.c'' ''pw''"
  unfolding failing_search_def
  by (rule reaches_try_collaborators [OF reaches_try_plain, THEN conjunct1])

lemma reaches_try_empty_search:
  "reaches_try cli_plain None env_india empty_search ''mobile developer hiring'' ''a@b.c'' ''pw''"
  unfolding empty_search_def
  by (rule reaches_try_collaborators [OF reaches_try_plain, THEN conjunct1])

lemma reaches_try_usa_empty_search:
  "reaches_try cli_usa None env_usa empty_search ''backend developer'' ''u@s.a'' ''secret''"
  unfolding empty_search_def
  by (rule reaches_try_collaborators [OF reaches_try_usa, THEN conjunct1])

subsection \<open>Interrupts, exceptions and empty results inside \<open>try\<close>\<close>

text \<open>
  Claim C1, as amended. A \<open>KeyboardInterrupt\<close> raised after browsing has begun, by
  \<open>search_linkedin_posts\<close> or, in the middle of the extraction, by
  \<open>scrape_linkedin_posts\<close>, is caught: the run prints the interruption notice, closes
  the browsing context, stops Playwright, and \<open>main\<close> returns (exit status 0).
  \<open>save_session\<close> is not invoked on this path; it is called only after both calls
  have returned.
\<close>

theorem interrupt_closes_context_without_saving:
  assumes "reaches_try c file env w q email password"
    and "search_call w q (run_config c file) (run_country c) email password = Raises KeyboardInterrupt \<or>
         (\<exists>urls. search_call w q (run_config c file) (run_country c) email password = Returns urls \<and>
                 urls \<noteq> [] \<and>
                 scrape_call w urls (run_config c file) = Raises KeyboardInterrupt)"
  shows "Call_save_session \<notin> set (fst (main c file env w)) \<and>
         (\<exists>evs. fst (main c file env w) = evs @ [Print_interrupted, Context_close, Stop_playwright]) \<and>
         snd (main c file env w) = None \<and>
         exit_status (snd (main c file env w)) = 0"
proof -
  let ?body = "try_body w q (run_config c file) (run_country c) email password"
  from assms(2) obtain evs where b: "?body = (evs, Some KeyboardInterrupt)"
    and n: "Call_save_session \<notin> set evs"
  proof
    assume "search_call w q (run_config c file) (run_country c) email password = Raises KeyboardInterrupt"
    then show ?thesis
      by (rule that [OF try_body_search_raises]) simp
  next
    assume "\<exists>urls. search_call w q (run_config c file) (run_country c) email password = Returns urls \<and>
                 urls \<noteq> [] \<and>
                 scrape_call w urls (run_config c file) = Raises KeyboardInterrupt"
    then obtain urls where
      "search_call w q (run_config c file) (run_country c) email password = Returns urls"
      "urls \<noteq> []" "scrape_call w urls (run_config c file) = Raises KeyboardInterrupt"
      by blast
    then show ?thesis
      by (intro that [OF try_body_scrape_raises]) simp_all
  qed
  have m: "main c file env w =
      (setup_events q (run_config c file) (run_country c) email @ evs @
         [Print_interrupted, Context_close, Stop_playwright], None)"
    by (simp add: main_reaches_try [OF assms(1)] b handlers_KeyboardInterrupt finally_clause_eq)
  have "fst (main c file env w) =
      (setup_events q (run_config c file) (run_country c) email @ evs) @
         [Print_interrupted, Context_close, Stop_playwright]"
    by (simp add: m)
  then have e: "\<exists>evs. fst (main c file env w) = evs @ [Print_interrupted, Context_close, Stop_playwright]"
    by (rule exI)
  have s: "Call_save_session \<notin> set (fst (main c file env w))"
    using n by (simp add: m save_session_not_in_setup)
  show ?thesis
    using s e by (simp add: m)
qed

theorem interrupt_closes_context_without_saving_witness:
  "reaches_try cli_plain None env_india interrupted_scrape ''mobile developer hiring'' ''a@b.c'' ''pw'' \<and>
   scrape_call interrupted_scrape [''https://in.linkedin.com/posts/1''] (run_config cli_plain None)
     = Raises KeyboardInterrupt \<and>
   Call_save_session \<notin> set (fst (main cli_plain None env_india interrupted_scrape)) \<and>
   snd (main cli_plain None env_india interrupted_scrape) = None"
proof -
  have s: "search_call interrupted_scrape ''mobile developer hiring'' (run_config cli_plain None)
             (run_country cli_plain) ''a@b.c'' ''pw'' = Returns [''https://in.linkedin.com/posts/1'']"
    by (simp add: search_call_def interrupted_scrape_def all_return_def)
  have t: "scrape_call interrupted_scrape [''https://in.linkedin.com/posts/1''] (run_config cli_plain None)
             = Raises KeyboardInterrupt"
    by (simp add: scrape_call_def interrupted_scrape_def all_return_def)
  have h: "search_call interrupted_scrape ''mobile developer hiring'' (run_config cli_plain None)
             (run_country cli_plain) ''a@b.c'' ''pw'' = Raises KeyboardInterrupt \<or>
         (\<exists>urls. search_call interrupted_scrape ''mobile developer hiring'' (run_config cli_plain None)
             (run_country cli_plain) ''a@b.c'' ''pw'' = Returns urls \<and>
                 urls \<noteq> [] \<and>
                 scrape_call interrupted_scrape urls (run_config cli_plain None) = Raises KeyboardInterrupt)"
    using s t by simp
  note r = interrupt_closes_context_without_saving [OF reaches_try_interrupted_scrape h]
  show ?thesis
    using reaches_try_interrupted_scrape t r [THEN conjunct1] r [THEN conjunct2, THEN conjunct2, THEN conjunct1]
    by (intro conjI)
qed

text \<open>
  The claim as first stated fails: with the default command line and configuration and
  a scraper that is interrupted in the middle of the extraction, the run ends without a
  call of \<open>save_session\<close>.
\<close>

theorem interrupt_mid_extraction_counterexample:
  "main cli_plain None env_india interrupted_scrape =
     ([Print_header ''mobile developer hiring'' 50 ''India'' ''browser_session_india'' False,
       Print_using_credentials ''a@b.c'',
       Start_playwright,
       Mkdir ''browser_session_india'',
       Print_context_settings ''India'' ''Asia/Kolkata'' ''en-IN'',
       Launch_persistent_context ''browser_session_india'' False ''Asia/Kolkata'' ''en-IN'',
       Set_extra_http_headers,
       First_page,
       Print_searching ''in'' ''mobile developer hiring'',
       Call_search_linkedin_posts ''mobile developer hiring'' 50 2 ''in'' ''a@b.c'' ''pw'',
       Call_scrape_linkedin_posts [''https://in.linkedin.com/posts/1''] 2 True,
       Print_interrupted,
       Context_close,
       Stop_playwright], None) \<and>
   Call_save_session \<notin> set (fst (main cli_plain None env_india interrupted_scrape))"
proof -
  have s: "search_call interrupted_scrape ''mobile developer hiring'' (run_config cli_plain None)
             (run_country cli_plain) ''a@b.c'' ''pw'' = Returns [''https://in.linkedin.com/posts/1'']"
    by (simp add: search_call_def interrupted_scrape_def all_return_def)
  have t: "scrape_call interrupted_scrape [''https://in.linkedin.com/posts/1''] (run_config cli_plain None)
             = Raises KeyboardInterrupt"
    by (simp add: scrape_call_def interrupted_scrape_def all_return_def)
  have b: "try_body interrupted_scrape ''mobile developer hiring'' (run_config cli_plain None)
             (run_country cli_plain) ''a@b.c'' ''pw'' =
           ([Print_searching ''in'' ''mobile developer hiring'',
             Call_search_linkedin_posts ''mobile developer hiring'' 50 2 ''in'' ''a@b.c'' ''pw'',
             Call_scrape_linkedin_posts [''https://in.linkedin.com/posts/1''] 2 True],
            Some KeyboardInterrupt)"
    using try_body_scrape_raises [OF s _ t]
    by (simp add: run_config_plain run_country_plain default_config_def)
  have m: "main cli_plain None env_india interrupted_scrape =
     ([Print_header ''mobile developer hiring'' 50 ''India'' ''browser_session_india'' False,
       Print_using_credentials ''a@b.c'',
       Start_playwright,
       Mkdir ''browser_session_india'',
       Print_context_settings ''India'' ''Asia/Kolkata'' ''en-IN'',
       Launch_persistent_context ''browser_session_india'' False ''Asia/Kolkata'' ''en-IN'',
       Set_extra_http_headers,
       First_page,
       Print_searching ''in'' ''mobile developer hiring'',
       Call_search_linkedin_posts ''mobile developer hiring'' 50 2 ''in'' ''a@b.c'' ''pw'',
       Call_scrape_linkedin_posts [''https://in.linkedin.com/posts/1''] 2 True,
       Print_interrupted,
       Context_close,
       Stop_playwright], None)"
    by (simp add: main_reaches_try [OF reaches_try_interrupted_scrape] b handlers_KeyboardInterrupt
        finally_clause_eq)
       (simp add: setup_events_def run_config_plain run_country_plain default_config_def)
  show ?thesis
    by (simp add: m)
qed


text \<open>
  Claim C2, as amended. An exception (a subclass of \<open>Exception\<close>, such as an
  authentication failure) raised after browsing has begun by \<open>search_linkedin_posts\<close>,
  \<open>scrape_linkedin_posts\<close> or \<open>save_session\<close> is reported (the error and its traceback
  are printed) and swallowed: the browsing context is closed, Playwright is stopped and
  \<open>main\<close> returns, so the process exits with status 0.
\<close>

theorem exception_reported_and_swallowed:
  assumes "reaches_try c file env w q email password"
    and "is_Exception e"
    and "search_call w q (run_config c file) (run_country c) email password = Raises e \<or>
         (\<exists>urls. search_call w q (run_config c file) (run_country c) email password = Returns urls \<and>
                 urls \<noteq> [] \<and>
                 (scrape_call w urls (run_config c file) = Raises e \<or>
                  scrape_call w urls (run_config c file) = Returns () \<and> save_session w = Raises e))"
  shows "(\<exists>evs. fst (main c file env w) =
                  evs @ [Print_unexpected_error e, Context_close, Stop_playwright]) \<and>
         snd (main c file env w) = None \<and>
         exit_status (snd (main c file env w)) = 0"
proof -
  let ?body = "try_body w q (run_config c file) (run_country c) email password"
  from assms(3) obtain evs where b: "?body = (evs, Some e)"
  proof (elim disjE exE conjE)
    assume "search_call w q (run_config c file) (run_country c) email password = Raises e"
    then show ?thesis
      by (rule that [OF try_body_search_raises])
  next
    fix urls
    assume "search_call w q (run_config c file) (run_country c) email password = Returns urls"
      "urls \<noteq> []" "scrape_call w urls (run_config c file) = Raises e"
    then show ?thesis
      by (rule that [OF try_body_scrape_raises])
  next
    fix urls
    assume "search_call w q (run_config c file) (run_country c) email password = Returns urls"
      "urls \<noteq> []" "scrape_call w urls (run_config c file) = Returns ()" "save_session w = Raises e"
    then show ?thesis
      by (rule that [OF try_body_save_raises])
  qed
  have m: "main c file env w =
      (setup_events q (run_config c file) (run_country c) email @ evs @
         [Print_unexpected_error e, Context_close, Stop_playwright], None)"
    by (simp add: main_reaches_try [OF assms(1)] b handlers_Exception [OF assms(2)] finally_clause_eq)
  have "fst (main c file env w) =
      (setup_events q (run_config c file) (run_country c) email @ evs) @
         [Print_unexpected_error e, Context_close, Stop_playwright]"
    by (simp add: m)
  then have "\<exists>evs. fst (main c file env w) =
                  evs @ [Print_unexpected_error e, Context_close, Stop_playwright]"
    by (rule exI)
  then show ?thesis
    by (simp add: m)
qed

theorem exception_reported_and_swallowed_witness:
  "reaches_try cli_plain None env_india failing_search ''mobile developer hiring'' ''a@b.c'' ''pw'' \<and>
   is_Exception (OtherException ''AuthFailed'') \<and>
   search_call failing_search ''mobile developer hiring'' (run_config cli_plain None)
     (run_country cli_plain) ''a@b.c'' ''pw'' = Raises (OtherException ''AuthFailed'') \<and>
   snd (main cli_plain None env_india failing_search) = None"
proof -
  have s: "search_call failing_search ''mobile developer hiring'' (run_config cli_plain None)
             (run_country cli_plain) ''a@b.c'' ''pw'' = Raises (OtherException ''AuthFailed'')"
    by (simp add: search_call_def failing_search_def all_return_def)
  have i: "is_Exception (OtherException ''AuthFailed'')"
    by simp
  note r = exception_reported_and_swallowed [OF reaches_try_failing_search i disjI1 [OF s]]
  show ?thesis
    using reaches_try_failing_search i s r [THEN conjunct2, THEN conjunct1]
    by (intro conjI)
qed

text \<open>
  The claim as first stated fails: when the search raises \<open>AuthFailed\<close> the failure is
  reported and the exit status is 0.
\<close>

theorem auth_failure_exit_status_counterexample:
  "main cli_plain None env_india failing_search =
     ([Print_header ''mobile developer hiring'' 50 ''India'' ''browser_session_india'' False,
       Print_using_credentials ''a@b.c'',
       Start_playwright,
       Mkdir ''browser_session_india'',
       Print_context_settings ''India'' ''Asia/Kolkata'' ''en-IN'',
       Launch_persistent_context ''browser_session_india'' False ''Asia/Kolkata'' ''en-IN'',
       Set_extra_http_headers,
       First_page,
       Print_searching ''in'' ''mobile developer hiring'',
       Call_search_linkedin_posts ''mobile developer hiring'' 50 2 ''in'' ''a@b.c'' ''pw'',
       Print_unexpected_error (OtherException ''AuthFailed''),
       Context_close,
       Stop_playwright], None) \<and>
   exit_status (snd (main cli_plain None env_india failing_search)) = 0"
proof -
  have s: "search_call failing_search ''mobile developer hiring'' (run_config cli_plain None)
             (run_country cli_plain) ''a@b.c'' ''pw'' = Raises (OtherException ''AuthFailed'')"
    by (simp add: search_call_def failing_search_def all_return_def)
  have m: "main cli_plain None env_india failing_search =
     ([Print_header ''mobile developer hiring'' 50 ''India'' ''browser_session_india'' False,
       Print_using_credentials ''a@b.c'',
       Start_playwright,
       Mkdir ''browser_session_india'',
       Print_context_settings ''India'' ''Asia/Kolkata'' ''en-IN'',
       Launch_persistent_context ''browser_session_india'' False ''Asia/Kolkata'' ''en-IN'',
       Set_extra_http_headers,
       First_page,
       Print_searching ''in'' ''mobile developer hiring'',
       Call_search_linkedin_posts ''mobile developer hiring'' 50 2 ''in'' ''a@b.c'' ''pw'',
       Print_unexpected_error (OtherException ''AuthFailed''),
       Context_close,
       Stop_playwright], None)"
    by (simp add: main_reaches_try [OF reaches_try_failing_search] try_body_search_raises [OF s]
        handlers_Exception finally_clause_eq)
       (simp add: setup_events_def run_config_plain run_country_plain default_config_def)
  show ?thesis
    by (simp add: m)
qed

text \<open>
  Claim C5, as amended. When \<open>search_linkedin_posts\<close> returns an empty list (it
  returns, it does not raise), \<open>main\<close> treats the empty result as fatal: it prints that
  no post URL was found, calls neither \<open>scrape_linkedin_posts\<close> nor \<open>save_session\<close>,
  closes the browsing context, and leaves through \<open>sys.exit(1)\<close>, exit status 1.
\<close>

theorem empty_search_result_exits_1:
  assumes "reaches_try c file env w q email password"
    and "search_call w q (run_config c file) (run_country c) email password = Returns []"
  shows "main c file env w =
           (setup_events q (run_config c file) (run_country c) email @
            [Print_searching (linkedin_subdomain (run_country c)) q,
             Call_search_linkedin_posts q (max_results (run_config c file))
               (delay_between_requests_seconds (run_config c file))
               (linkedin_subdomain (run_country c)) email password,
             Print_no_urls,
             Context_close,
             Stop_playwright],
            Some (SystemExit 1)) \<and>
         exit_status (snd (main c file env w)) = 1"
proof -
  have m: "main c file env w =
           (setup_events q (run_config c file) (run_country c) email @
            [Print_searching (linkedin_subdomain (run_country c)) q,
             Call_search_linkedin_posts q (max_results (run_config c file))
               (delay_between_requests_seconds (run_config c file))
               (linkedin_subdomain (run_country c)) email password,
             Print_no_urls,
             Context_close,
             Stop_playwright],
            Some (SystemExit 1))"
    by (simp add: main_reaches_try [OF assms(1)] try_body_search_empty [OF assms(2)]
        handlers_SystemExit finally_clause_eq)
  show ?thesis
    by (simp add: m)
qed

theorem empty_search_result_exits_1_witness:
  "reaches_try cli_usa None env_usa empty_search ''backend developer'' ''u@s.a'' ''secret'' \<and>
   search_call empty_search ''backend developer'' (run_config cli_usa None) (run_country cli_usa)
     ''u@s.a'' ''secret'' = Returns [] \<and>
   exit_status (snd (main cli_usa None env_usa empty_search)) = 1"
proof -
  have s: "search_call empty_search ''backend developer'' (run_config cli_usa None) (run_country cli_usa)
     ''u@s.a'' ''secret'' = Returns []"
    by (simp add: search_call_def empty_search_def all_return_def)
  note r = empty_search_result_exits_1 [OF reaches_try_usa_empty_search s]
  show ?thesis
    using reaches_try_usa_empty_search s r [THEN conjunct2]
    by (intro conjI)
qed

text \<open>
  The claim as first stated fails: with the default command line and configuration and
  a search that returns no URL, the run ends with exit status 1.
\<close>

theorem empty_search_result_counterexample:
  "search_call empty_search ''mobile developer hiring'' (run_config cli_plain None)
     (run_country cli_plain) ''a@b.c'' ''pw'' = Returns [] \<and>
   main cli_plain None env_india empty_search =
     ([Print_header ''mobile developer hiring'' 50 ''India'' ''browser_session_india'' False,
       Print_using_credentials ''a@b.c'',
       Start_playwright,
       Mkdir ''browser_session_india'',
       Print_context_settings ''India'' ''Asia/Kolkata'' ''en-IN'',
       Launch_persistent_context ''browser_session_india'' False ''Asia/Kolkata'' ''en-IN'',
       Set_extra_http_headers,
       First_page,
       Print_searching ''in'' ''mobile developer hiring'',
       Call_search_linkedin_posts ''mobile developer hiring'' 50 2 ''in'' ''a@b.c'' ''pw'',
       Print_no_urls,
       Context_close,
       Stop_playwright], Some (SystemExit 1)) \<and>
   exit_status (snd (main cli_plain None env_india empty_search)) = 1"
proof -
  have s: "search_call empty_search ''mobile developer hiring'' (run_config cli_plain None)
             (run_country cli_plain) ''a@b.c'' ''pw'' = Returns []"
    by (simp add: search_call_def empty_search_def all_return_def)
  have m: "main cli_plain None env_india empty_search =
     ([Print_header ''mobile developer hiring'' 50 ''India'' ''browser_session_india'' False,
       Print_using_credentials ''a@b.c'',
       Start_playwright,
       Mkdir ''browser_session_india'',
       Print_context_settings ''India'' ''Asia/Kolkata'' ''en-IN'',
       Launch_persistent_context ''browser_session_india'' False ''Asia/Kolkata'' ''en-IN'',
       Set_extra_http_headers,
       First_page,
       Print_searching ''in'' ''mobile developer hiring'',
       Call_search_linkedin_posts ''mobile developer hiring'' 50 2 ''in'' ''a@b.c'' ''pw'',
       Print_no_urls,
       Context_close,
       Stop_playwright], Some (SystemExit 1))"
    by (simp add: main_reaches_try [OF reaches_try_empty_search] try_body_search_empty [OF s]
        handlers_SystemExit finally_clause_eq)
       (simp add: setup_events_def run_config_plain run_country_plain default_config_def)
  show ?thesis
    using s by (simp add: m)
qed

section \<open>Properties of the Search Collector\<close>

text \<open>The defining equation of the loop is unfolded by hand, one pass at a time.\<close>

declare collect_loop.simps [simp del]

lemma set_fresh: "set (fresh seen us) = set us - set seen"
  by (induction us arbitrary: seen) auto

lemma distinct_fresh: "distinct (fresh seen us)"
  by (induction us arbitrary: seen) (auto simp add: set_fresh)

lemma fresh_append:
  "fresh seen (us @ vs) = fresh seen us @ fresh (seen @ fresh seen us) vs"
  by (induction us arbitrary: seen) simp_all

lemma fresh_first_occurrences: "fresh [] us = rev (remdups (rev us))"
proof (induction us rule: rev_induct)
  case Nil
  show ?case by simp
next
  case (snoc u us)
  have "fresh [] (us @ [u]) = fresh [] us @ (if u \<in> set us then [] else [u])"
    by (simp add: fresh_append set_fresh)
  with snoc show ?case by simp
qed

lemma discovered_Suc:
  "discovered c r (Suc k) = discovered c r k @ map c (r k)"
  by (simp add: discovered_def)

lemma collect_loop_unfold:
  "collect_loop c r m b k e acc ns =
     (if m \<le> length (acc @ fresh acc (map c (r k)))
      then (take m (acc @ fresh acc (map c (r k))), ns @ [length (fresh acc (map c (r k)))])
      else if fresh acc (map c (r k)) = [] \<and> 0 < k
      then (acc @ fresh acc (map c (r k)), ns @ [length (fresh acc (map c (r k)))])
      else if b < (if fresh acc (map c (r k)) = [] then Suc e else 0)
      then (acc @ fresh acc (map c (r k)), ns @ [length (fresh acc (map c (r k)))])
      else collect_loop c r m b (Suc k) (if fresh acc (map c (r k)) = [] then Suc e else 0)
             (acc @ fresh acc (map c (r k))) (ns @ [length (fresh acc (map c (r k)))]))"
  by (subst collect_loop.simps) (simp add: Let_def)

lemma collect_loop_discovery:
  "acc = fresh [] (discovered c r k) \<Longrightarrow> length ns = k \<Longrightarrow>
   fst (collect_loop c r m b k e acc ns) =
     take m (fresh [] (discovered c r (length (snd (collect_loop c r m b k e acc ns)))))"
proof (induction c r m b k e acc ns rule: collect_loop.induct)
  case (1 c r m b k e acc ns)
  let ?new = "fresh acc (map c (r k))"
  have a: "acc @ ?new = fresh [] (discovered c r (Suc k))"
    using "1.prems"(1) by (simp add: discovered_Suc fresh_append)
  show ?case
  proof (cases "m \<le> length (acc @ ?new) \<or> (?new = [] \<and> 0 < k) \<or>
                b < (if ?new = [] then Suc e else 0)")
    case True
    then show ?thesis
      using a "1.prems"(2) by (subst (1 2) collect_loop_unfold) auto
  next
    case False
    then have "fst (collect_loop c r m b (Suc k) (if ?new = [] then Suc e else 0) (acc @ ?new)
                 (ns @ [length ?new])) =
       take m (fresh [] (discovered c r (length (snd (collect_loop c r m b (Suc k)
                 (if ?new = [] then Suc e else 0) (acc @ ?new) (ns @ [length ?new]))))))"
      using a "1.prems"(2) by (intro "1.IH") auto
    with False show ?thesis
      by (subst (1 2) collect_loop_unfold) auto
  qed
qed


lemma collect_loop_log:
  "\<exists>ms. snd (collect_loop c r m b k e acc ns) = ns @ length (fresh acc (map c (r k))) # ms"
proof (induction c r m b k e acc ns rule: collect_loop.induct)
  case (1 c r m b k e acc ns)
  let ?new = "fresh acc (map c (r k))"
  show ?case
  proof (cases "m \<le> length (acc @ ?new) \<or> (?new = [] \<and> 0 < k) \<or>
                b < (if ?new = [] then Suc e else 0)")
    case True
    then show ?thesis
      by (subst collect_loop_unfold) auto
  next
    case False
    then have "\<exists>ms. snd (collect_loop c r m b (Suc k) (if ?new = [] then Suc e else 0) (acc @ ?new)
                 (ns @ [length ?new])) =
       (ns @ [length ?new]) @ length (fresh (acc @ ?new) (map c (r (Suc k)))) # ms"
      by (intro "1.IH") auto
    with False show ?thesis
      by (subst collect_loop_unfold) auto
  qed
qed

lemma collect_loop_bound:
  "length (snd (collect_loop c r m b k e acc ns)) \<le>
     length ns + max 1 (m - length acc + (if k = 0 then 1 else 0))"
proof (induction c r m b k e acc ns rule: collect_loop.induct)
  case (1 c r m b k e acc ns)
  let ?new = "fresh acc (map c (r k))"
  show ?case
  proof (cases "m \<le> length (acc @ ?new) \<or> (?new = [] \<and> 0 < k) \<or>
                b < (if ?new = [] then Suc e else 0)")
    case True
    then show ?thesis
      by (subst collect_loop_unfold) auto
  next
    case False
    then have "length (snd (collect_loop c r m b (Suc k) (if ?new = [] then Suc e else 0) (acc @ ?new)
                 (ns @ [length ?new]))) \<le>
       length (ns @ [length ?new]) + max 1 (m - length (acc @ ?new) + (if Suc k = 0 then 1 else 0))"
      by (intro "1.IH") auto
    then show ?thesis
      using False by (subst collect_loop_unfold) (cases "?new"; auto)
  qed
qed

lemma collect_loop_below_cap:
  "sum_list ns = length acc \<Longrightarrow>
   \<forall>i. length ns \<le> i \<and> Suc i < length (snd (collect_loop c r m b k e acc ns)) \<longrightarrow>
       sum_list (take (Suc i) (snd (collect_loop c r m b k e acc ns))) < m"
proof (induction c r m b k e acc ns rule: collect_loop.induct)
  case (1 c r m b k e acc ns)
  let ?new = "fresh acc (map c (r k))"
  show ?case
  proof (cases "m \<le> length (acc @ ?new) \<or> (?new = [] \<and> 0 < k) \<or>
                b < (if ?new = [] then Suc e else 0)")
    case True
    then show ?thesis
      by (subst (1 2) collect_loop_unfold) auto
  next
    case False
    let ?log = "snd (collect_loop c r m b (Suc k) (if ?new = [] then Suc e else 0) (acc @ ?new)
                 (ns @ [length ?new]))"
    have eq: "snd (collect_loop c r m b k e acc ns) = ?log"
      using False by (subst collect_loop_unfold) auto
    have ih: "\<forall>i. length (ns @ [length ?new]) \<le> i \<and> Suc i < length ?log \<longrightarrow>
                 sum_list (take (Suc i) ?log) < m"
      using False "1.prems" by (intro "1.IH") auto
    obtain ms where ms: "?log = (ns @ [length ?new]) @ length (fresh (acc @ ?new) (map c (r (Suc k)))) # ms"
      using collect_loop_log by blast
    have first: "sum_list (take (Suc (length ns)) ?log) < m"
      using False "1.prems" by (simp add: ms)
    show ?thesis
      unfolding eq
    proof (intro allI impI)
      fix i
      assume i: "length ns \<le> i \<and> Suc i < length ?log"
      show "sum_list (take (Suc i) ?log) < m"
      proof (cases "i = length ns")
        case True
        with first show ?thesis by simp
      next
        case False
        with i ih show ?thesis by simp
      qed
    qed
  qed
qed

lemma collect_loop_progress:
  "length ns = k \<Longrightarrow>
   \<forall>i. length ns \<le> i \<and> 0 < i \<and> Suc i < length (snd (collect_loop c r m b k e acc ns)) \<longrightarrow>
       snd (collect_loop c r m b k e acc ns) ! i \<noteq> 0"
proof (induction c r m b k e acc ns rule: collect_loop.induct)
  case (1 c r m b k e acc ns)
  let ?new = "fresh acc (map c (r k))"
  show ?case
  proof (cases "m \<le> length (acc @ ?new) \<or> (?new = [] \<and> 0 < k) \<or>
                b < (if ?new = [] then Suc e else 0)")
    case True
    then show ?thesis
      by (subst (1 2) collect_loop_unfold) auto
  next
    case False
    let ?log = "snd (collect_loop c r m b (Suc k) (if ?new = [] then Suc e else 0) (acc @ ?new)
                 (ns @ [length ?new]))"
    have eq: "snd (collect_loop c r m b k e acc ns) = ?log"
      using False by (subst collect_loop_unfold) auto
    have ih: "\<forall>i. length (ns @ [length ?new]) \<le> i \<and> 0 < i \<and> Suc i < length ?log \<longrightarrow> ?log ! i \<noteq> 0"
      using False "1.prems" by (intro "1.IH") auto
    obtain ms where ms: "?log = (ns @ [length ?new]) @ length (fresh (acc @ ?new) (map c (r (Suc k)))) # ms"
      using collect_loop_log by blast
    have "?log ! length ns = length ?new"
      by (simp add: ms nth_append)
    then have first: "0 < k \<Longrightarrow> ?log ! length ns \<noteq> 0"
      using False by simp
    show ?thesis
      unfolding eq
    proof (intro allI impI)
      fix i
      assume i: "length ns \<le> i \<and> 0 < i \<and> Suc i < length ?log"
      show "?log ! i \<noteq> 0"
      proof (cases "i = length ns")
        case True
        with first i "1.prems" show ?thesis by simp
      next
        case False
        with i ih show ?thesis by simp
      qed
    qed
  qed
qed

lemma collect_loop_stop:
  "length (fst (collect_loop c r m b k e acc ns)) = m \<or>
   last (snd (collect_loop c r m b k e acc ns)) = 0"
proof (induction c r m b k e acc ns rule: collect_loop.induct)
  case (1 c r m b k e acc ns)
  let ?new = "fresh acc (map c (r k))"
  show ?case
  proof (cases "m \<le> length (acc @ ?new) \<or> (?new = [] \<and> 0 < k) \<or>
                b < (if ?new = [] then Suc e else 0)")
    case True
    then show ?thesis
      by (subst (1 2) collect_loop_unfold) (auto split: if_splits)
  next
    case False
    then have "length (fst (collect_loop c r m b (Suc k) (if ?new = [] then Suc e else 0) (acc @ ?new)
                 (ns @ [length ?new]))) = m \<or>
       last (snd (collect_loop c r m b (Suc k) (if ?new = [] then Suc e else 0) (acc @ ?new)
                 (ns @ [length ?new]))) = 0"
      by (intro "1.IH") auto
    with False show ?thesis
      by (subst (1 2) collect_loop_unfold) auto
  qed
qed

lemma collect_loop_guard_first_pass:
  "snd (collect_loop c r m 0 0 0 [] []) ! 0 = 0 \<Longrightarrow> length (snd (collect_loop c r m 0 0 0 [] [])) = 1"
proof -
  assume z: "snd (collect_loop c r m 0 0 0 [] []) ! 0 = 0"
  obtain ms where "snd (collect_loop c r m 0 0 0 [] []) = [] @ length (fresh [] (map c (r 0))) # ms"
    using collect_loop_log by blast
  with z have "fresh [] (map c (r 0)) = []"
    by simp
  then show ?thesis
    by (subst collect_loop_unfold) simp
qed



text \<open>
  Claim C4. For every query and every \<open>max_results = n\<close> (in particular every
  \<open>n \<ge> 1\<close>), the Candidate URL Set that \<open>collect\<close> returns has at most \<open>n\<close> entries and
  no duplicate canonical URL, and it is the first \<open>n\<close> entries of the discovery
  sequence of the passes made with only the first occurrence of every URL kept
  (\<open>remdups\<close> keeps last occurrences, so it is applied to the reversed sequence).
\<close>

theorem collect_capped_distinct_first_seen:
  "length (collect c b page query n d) \<le> n \<and>
   distinct (collect c b page query n d) \<and>
   collect c b page query n d =
     take n (fresh [] (discovered c (page query) (length (collect_passes c b page query n d)))) \<and>
   fresh [] (discovered c (page query) (length (collect_passes c b page query n d))) =
     rev (remdups (rev (discovered c (page query) (length (collect_passes c b page query n d)))))"
proof -
  have e: "collect c b page query n d =
     take n (fresh [] (discovered c (page query) (length (collect_passes c b page query n d))))"
    unfolding collect_def collect_passes_def
    by (rule collect_loop_discovery) (simp_all add: discovered_def)
  have l: "length (collect c b page query n d) \<le> n"
    by (subst e) simp
  have "distinct (fresh [] (discovered c (page query) (length (collect_passes c b page query n d))))"
    by (rule distinct_fresh)
  then have t: "distinct (collect c b page query n d)"
    by (subst e) (rule distinct_take)
  show ?thesis
    using l t e fresh_first_occurrences by blast
qed

theorem collect_capped_distinct_first_seen_witness:
  "collect strip_tracking 2 three_posts ''q'' 2 0 = [''/posts/a'', ''/posts/b''] \<and>
   collect strip_tracking 2 three_posts ''q'' 5 0 = [''/posts/a'', ''/posts/b'', ''/posts/c''] \<and>
   length (collect strip_tracking 2 three_posts ''q'' 2 0) \<le> 2 \<and>
   distinct (collect strip_tracking 2 three_posts ''q'' 5 0)"
proof -
  have 1: "collect strip_tracking 2 three_posts ''q'' 2 0 = [''/posts/a'', ''/posts/b'']"
    by code_simp
  have 2: "collect strip_tracking 2 three_posts ''q'' 5 0 = [''/posts/a'', ''/posts/b'', ''/posts/c'']"
    by code_simp
  show ?thesis
    using 1 2 collect_capped_distinct_first_seen [of strip_tracking 2 three_posts "''q''" 2 0, THEN conjunct1]
      collect_capped_distinct_first_seen [of strip_tracking 2 three_posts "''q''" 5 0,
        THEN conjunct2, THEN conjunct1]
    by (intro conjI)
qed


text \<open>
  Claim C6. The collection loop terminates: \<open>collect_loop\<close> is a total function, and it
  makes at most \<open>max_results + 1\<close> passes. A pass is followed by another one only
  while fewer than \<open>max_results\<close> URLs are collected, and, after a scroll, only if it
  found something new; more than \<open>max_empty\<close> consecutive passes without a new URL
  end the loop; two consecutive passes without a new URL are always the last two,
  whether or not \<open>max_results\<close> is reached. The last pass reached \<open>max_results\<close> or
  found nothing new.
\<close>

theorem collect_passes_bounded:
  "length (collect_passes c b page query n d) \<le> n + 1 \<and>
   (\<forall>i. Suc i < length (collect_passes c b page query n d) \<longrightarrow>
        sum_list (take (Suc i) (collect_passes c b page query n d)) < n) \<and>
   (\<forall>i. 0 < i \<and> Suc i < length (collect_passes c b page query n d) \<longrightarrow>
        collect_passes c b page query n d ! i \<noteq> 0) \<and>
   (\<forall>i. i < length (collect_passes c b page query n d) \<and> b \<le> i \<and>
        (\<forall>j. i - b \<le> j \<and> j \<le> i \<longrightarrow> collect_passes c b page query n d ! j = 0) \<longrightarrow>
        length (collect_passes c b page query n d) = Suc i) \<and>
   (\<forall>i. Suc i < length (collect_passes c b page query n d) \<and>
        collect_passes c b page query n d ! i = 0 \<and>
        collect_passes c b page query n d ! Suc i = 0 \<longrightarrow>
        length (collect_passes c b page query n d) = Suc (Suc i)) \<and>
   (length (collect c b page query n d) = n \<or> last (collect_passes c b page query n d) = 0)"
proof -
  let ?log = "collect_passes c b page query n d"
  have bound: "length ?log \<le> n + 1"
    using collect_loop_bound [of c "page query" n b 0 0 "[]" "[]"]
    by (simp add: collect_passes_def)
  have cap: "\<forall>i. Suc i < length ?log \<longrightarrow> sum_list (take (Suc i) ?log) < n"
    using collect_loop_below_cap [of "[]" "[]" c "page query" n b 0 0]
    by (simp add: collect_passes_def)
  have progress: "\<forall>i. 0 < i \<and> Suc i < length ?log \<longrightarrow> ?log ! i \<noteq> 0"
    using collect_loop_progress [of "[]" 0 c "page query" n b 0 "[]"]
    by (simp add: collect_passes_def)
  have guard: "\<forall>i. i < length ?log \<and> b \<le> i \<and> (\<forall>j. i - b \<le> j \<and> j \<le> i \<longrightarrow> ?log ! j = 0) \<longrightarrow>
                 length ?log = Suc i"
  proof (intro allI impI)
    fix i
    assume a: "i < length ?log \<and> b \<le> i \<and> (\<forall>j. i - b \<le> j \<and> j \<le> i \<longrightarrow> ?log ! j = 0)"
    then have z: "?log ! i = 0"
      by simp
    show "length ?log = Suc i"
    proof (cases "i = 0")
      case True
      with a have "b = 0"
        by simp
      with z True show ?thesis
        using collect_loop_guard_first_pass [of c "page query" n]
        by (simp add: collect_passes_def)
    next
      case False
      with z progress have "\<not> Suc i < length ?log"
        by auto
      with a show ?thesis
        by simp
    qed
  qed
  have twice: "\<forall>i. Suc i < length ?log \<and> ?log ! i = 0 \<and> ?log ! Suc i = 0 \<longrightarrow>
                 length ?log = Suc (Suc i)"
  proof (intro allI impI)
    fix i
    assume a: "Suc i < length ?log \<and> ?log ! i = 0 \<and> ?log ! Suc i = 0"
    with progress have "\<not> Suc (Suc i) < length ?log"
      by auto
    with a show "length ?log = Suc (Suc i)"
      by simp
  qed
  have stop: "length (collect c b page query n d) = n \<or> last ?log = 0"
    using collect_loop_stop [of c "page query" n b 0 0 "[]" "[]"]
    by (simp add: collect_def collect_passes_def)
  show ?thesis
    using bound cap progress guard twice stop by (intro conjI)
qed

theorem collect_passes_bounded_witness:
  "collect_passes strip_tracking 2 dead_end ''q'' 5 0 = [0, 0] \<and>
   length (collect_passes strip_tracking 2 dead_end ''q'' 5 0) = Suc (Suc 0) \<and>
   length (collect_passes strip_tracking 0 dead_end ''q'' 5 0) = Suc 0 \<and>
   collect_passes strip_tracking 2 three_posts ''q'' 5 0 = [2, 1, 0] \<and>
   sum_list (take (Suc 1) (collect_passes strip_tracking 2 three_posts ''q'' 5 0)) < 5 \<and>
   collect_passes strip_tracking 2 three_posts ''q'' 5 0 ! 1 \<noteq> 0"
proof -
  have 1: "collect_passes strip_tracking 2 dead_end ''q'' 5 0 = [0, 0]"
    by code_simp
  have 2: "collect_passes strip_tracking 2 three_posts ''q'' 5 0 = [2, 1, 0]"
    by code_simp
  note t = collect_passes_bounded [of strip_tracking 2 dead_end "''q''" 5 0]
  note u = collect_passes_bounded [of strip_tracking 2 three_posts "''q''" 5 0]
  have h: "Suc 0 < length (collect_passes strip_tracking 2 dead_end ''q'' 5 0) \<and>
           collect_passes strip_tracking 2 dead_end ''q'' 5 0 ! 0 = 0 \<and>
           collect_passes strip_tracking 2 dead_end ''q'' 5 0 ! Suc 0 = 0"
    by (simp add: 1)
  have 3: "length (collect_passes strip_tracking 2 dead_end ''q'' 5 0) = Suc (Suc 0)"
    by (rule t [THEN conjunct2, THEN conjunct2, THEN conjunct2, THEN conjunct2, THEN conjunct1,
          rule_format, OF h])
  have g: "Suc 1 < length (collect_passes strip_tracking 2 three_posts ''q'' 5 0)"
    by (simp add: 2)
  have 4: "sum_list (take (Suc 1) (collect_passes strip_tracking 2 three_posts ''q'' 5 0)) < 5"
    by (rule u [THEN conjunct2, THEN conjunct1, rule_format, OF g])
  have g': "0 < (1::nat) \<and> Suc 1 < length (collect_passes strip_tracking 2 three_posts ''q'' 5 0)"
    by (simp add: 2)
  have 5: "collect_passes strip_tracking 2 three_posts ''q'' 5 0 ! 1 \<noteq> 0"
    by (rule u [THEN conjunct2, THEN conjunct2, THEN conjunct1, rule_format, OF g'])
  have 6: "collect_passes strip_tracking 0 dead_end ''q'' 5 0 = [0]"
    by code_simp
  have f: "0 < length (collect_passes strip_tracking 0 dead_end ''q'' 5 0) \<and> (0::nat) \<le> 0 \<and>
           (\<forall>j. 0 - 0 \<le> j \<and> j \<le> 0 \<longrightarrow> collect_passes strip_tracking 0 dead_end ''q'' 5 0 ! j = 0)"
    by (simp add: 6)
  have 7: "length (collect_passes strip_tracking 0 dead_end ''q'' 5 0) = Suc 0"
    by (rule collect_passes_bounded [of strip_tracking 0 dead_end "''q''" 5 0,
          THEN conjunct2, THEN conjunct2, THEN conjunct2, THEN conjunct1, rule_format, OF f])
  show ?thesis
    using 1 3 7 2 4 5 by (intro conjI)
qed

section \<open>Properties of the Hiring Classifier\<close>

text \<open>
  Claim C7. A record tagged \<open>Unavailable\<close> is classified not-hiring with no matched
  phrase, whatever the keyword, job-title and cue sets are and whatever its text holds;
  \<open>classify\<close> is total, so it returns a result and raises nothing.
\<close>

theorem unavailable_not_hiring:
  "unavailable r \<Longrightarrow>
   \<not> hiring (classify m r) \<and> matched (classify m r) = [] \<and> classified (classify m r) = r"
  by (simp add: classify_def)

theorem unavailable_not_hiring_witness:
  "unavailable removed_post \<and>
   matches (keyword_set hiring_matcher) (post_text removed_post) = [''hiring'', ''we are hiring''] \<and>
   \<not> hiring (classify hiring_matcher removed_post) \<and>
   matched (classify hiring_matcher removed_post) = []"
proof -
  have u: "unavailable removed_post"
    by (simp add: removed_post_def)
  have k: "matches (keyword_set hiring_matcher) (post_text removed_post) = [''hiring'', ''we are hiring'']"
    by code_simp
  note t = unavailable_not_hiring [OF u, of hiring_matcher]
  show ?thesis
    using u k t [THEN conjunct1] t [THEN conjunct2, THEN conjunct1] by (intro conjI)
qed

end
